theory Spec2Isabelle
  imports Complex_Main "HOL-Library.Monad_Syntax"
begin

section \<open>The alarm firmware of Task 3 (main.cpp)\<close>

text \<open>
  The program is one polling loop over process-wide variables. The model passes the
  variables around as a record, takes everything the hardware supplies in one iteration
  (pin levels, the byte waiting on the serial port, the time that goes by) as an
  argument, and returns the bytes handed to the serial port.
\<close>

subsection \<open>Pins, variables and the environment\<close>

text \<open>
  The \<open>DigitalIn\<close> objects. All are biased pull-down, so \<open>True\<close> is "pressed" for a
  button and "hazard present" for a detector. One record is one sample of the pins; every
  read of a pin within one loop iteration sees the same sample.
\<close>

record pins =
  enterButton :: bool
  gasDetector :: bool
  overTempDetector :: bool
  aButton :: bool
  bButton :: bool
  cButton :: bool
  dButton :: bool

text \<open>
  The \<open>DigitalOut\<close> objects, the two global variables and the value of \<open>reportTimer\<close>
  in seconds. \<open>numberOfIncorrectCodes\<close> is a C++ \<open>int\<close>; its only increment is
  guarded by \<open>numberOfIncorrectCodes < 5\<close>, so it never wraps and an unbounded integer
  behaves as the machine integer does. The timer value is kept exact (a rational); the
  rounding of \<open>Timer::read\<close> to \<open>float\<close> is not modelled.
\<close>

record state =
  alarmLed :: bool
  incorrectCodeLed :: bool
  systemBlockedLed :: bool
  alarmState :: bool
  numberOfIncorrectCodes :: int
  reportTimer :: rat

text \<open>
  What one loop iteration receives from outside: the pin sample, the byte that
  \<open>uartUsb.read\<close> would deliver (\<open>None\<close> when \<open>uartUsb.readable()\<close> is false), and
  the time in seconds that passes before the next iteration reads the timer (the
  \<open>thread_sleep_for(100)\<close> and the running time of the iteration itself).
\<close>

record env =
  sample :: pins
  received :: "char option"
  elapsed :: rat

text \<open>The state after \<open>outputsInit()\<close>, the initialisers and \<open>reportTimer.start()\<close>.\<close>

definition initialState :: state where
  "initialState =
     \<lparr>alarmLed = False, incorrectCodeLed = False, systemBlockedLed = False,
      alarmState = False, numberOfIncorrectCodes = 0, reportTimer = 0\<rparr>"

subsection \<open>Alarm activation and deactivation\<close>

definition alarmActivationUpdate :: "pins \<Rightarrow> state \<Rightarrow> state" where
  "alarmActivationUpdate p s =
     (let s1 = (if gasDetector p \<or> overTempDetector p then s\<lparr>alarmState := True\<rparr> else s)
      in s1\<lparr>alarmLed := alarmState s1\<rparr>)"

definition alarmDeactivationUpdate :: "pins \<Rightarrow> state \<Rightarrow> state" where
  "alarmDeactivationUpdate p s =
     (if numberOfIncorrectCodes s < 5 then
        (let s1 = (if aButton p \<and> bButton p \<and> cButton p \<and> dButton p \<and> \<not> enterButton p
                   then s\<lparr>incorrectCodeLed := False\<rparr> else s)
         in if enterButton p \<and> \<not> incorrectCodeLed s1 \<and> alarmState s1 then
              (if aButton p \<and> bButton p \<and> \<not> cButton p \<and> \<not> dButton p
               then s1\<lparr>alarmState := False, numberOfIncorrectCodes := 0\<rparr>
               else s1\<lparr>incorrectCodeLed := True,
                       numberOfIncorrectCodes := numberOfIncorrectCodes s1 + 1\<rparr>)
            else s1)
      else s\<lparr>systemBlockedLed := True\<rparr>)"

subsection \<open>The serial port\<close>

definition CR :: char where "CR = CHR 0x0D"
definition LF :: char where "LF = CHR 0x0A"
definition NUL :: char where "NUL = CHR 0x00"

text \<open>
  The array a C string literal denotes: its characters and the terminating zero byte.
\<close>

definition literal :: "string \<Rightarrow> string" where
  "literal s = s @ [NUL]"

text \<open>
  \<open>uartUsb.write(buffer, length)\<close> sends the first \<open>length\<close> bytes at \<open>buffer\<close>. A length
  beyond the end of the array reads outside the object, which is undefined behaviour:
  the model returns \<open>None\<close> there.
\<close>

definition uartWrite :: "string \<Rightarrow> nat \<Rightarrow> string option" where
  "uartWrite buffer len = (if len \<le> length buffer then Some (take len buffer) else None)"

definition availableCommands :: "string option" where
  "availableCommands = do {
     w1 \<leftarrow> uartWrite (literal (''Available commands:'' @ [CR, LF])) 21;
     w2 \<leftarrow> uartWrite (literal (''Press '1' to get the alarm state'' @ [CR, LF])) 33;
     w3 \<leftarrow> uartWrite (literal (''Press '2' to check gas status'' @ [CR, LF])) 32;
     w4 \<leftarrow> uartWrite (literal (''Press '3' to check temperature status'' @ [CR, LF, CR, LF])) 41;
     Some (w1 @ w2 @ w3 @ w4)
   }"

definition uartTask :: "pins \<Rightarrow> char option \<Rightarrow> state \<Rightarrow> string option" where
  "uartTask p rx s =
     (case rx of
        None \<Rightarrow> Some []
      | Some receivedChar \<Rightarrow>
          if receivedChar = CHR ''1'' then
            uartWrite (if alarmState s then literal (''The alarm is activated'' @ [CR, LF])
                       else literal (''The alarm is not activated'' @ [CR, LF]))
                      (if alarmState s then 24 else 28)
          else if receivedChar = CHR ''2'' then
            uartWrite (if gasDetector p then literal (''Gas detected!'' @ [CR, LF])
                       else literal (''No gas detected'' @ [CR, LF]))
                      (if gasDetector p then 15 else 18)
          else if receivedChar = CHR ''3'' then
            uartWrite (if overTempDetector p then literal (''Over temperature detected!'' @ [CR, LF])
                       else literal (''Temperature normal'' @ [CR, LF]))
                      (if overTempDetector p then 28 else 20)
          else availableCommands)"

text \<open>
  \<open>snprintf(buffer, size, ...)\<close> stores at most \<open>size - 1\<close> characters of the formatted
  text and a zero byte, and returns the length of the whole formatted text. Only the
  bytes it stored are part of the modelled buffer: the rest of the array is
  uninitialised.
\<close>

definition snprintf :: "nat \<Rightarrow> string \<Rightarrow> string \<times> nat" where
  "snprintf bufsize text = (take (bufsize - 1) text @ [NUL], length text)"

definition statusReportText :: "string \<Rightarrow> string \<Rightarrow> string \<Rightarrow> string" where
  "statusReportText alarm gas temp =
     [CR, LF] @ ''[STATUS REPORT]'' @ [CR, LF] @ ''Alarm: '' @ alarm @ [CR, LF] @
     ''Gas: '' @ gas @ [CR, LF] @ ''Temperature: '' @ temp @ [CR, LF, CR, LF]"

definition sendStatusReport :: "pins \<Rightarrow> state \<Rightarrow> string option" where
  "sendStatusReport p s =
     (let (buffer, len) =
        snprintf 128 (statusReportText (if alarmState s then ''ON'' else ''OFF'')
                                       (if gasDetector p then ''Detected'' else ''Normal'')
                                       (if overTempDetector p then ''High'' else ''Normal''))
      in uartWrite buffer len)"

definition sendWarningIfNeeded :: "pins \<Rightarrow> string option" where
  "sendWarningIfNeeded p = do {
     w1 \<leftarrow> (if gasDetector p
            then uartWrite (literal (''[WARNING] Gas levels unsafe!'' @ [CR, LF])) 29
            else Some []);
     w2 \<leftarrow> (if overTempDetector p
            then uartWrite (literal (''[WARNING] Temperature too high!'' @ [CR, LF])) 33
            else Some []);
     Some (w1 @ w2)
   }"

subsection \<open>The main loop\<close>

text \<open>
  One pass through the body of \<open>while (true)\<close>. The result is the new state and the bytes
  sent, in the order sent. The timer runs on by \<open>elapsed\<close> before the next pass.
\<close>

text \<open>The test \<open>reportTimer.read() >= 5.0f\<close> of the loop body.\<close>

definition reportDue :: "state \<Rightarrow> bool" where
  "reportDue s = (5 \<le> reportTimer s)"

definition loopIteration :: "env \<Rightarrow> state \<Rightarrow> (state \<times> string) option" where
  "loopIteration e s = do {
     let s1 = alarmActivationUpdate (sample e) s;
     let s2 = alarmDeactivationUpdate (sample e) s1;
     tx1 \<leftarrow> uartTask (sample e) (received e) s2;
     (s3, tx2) \<leftarrow> (if reportDue s2
                   then do { r \<leftarrow> sendStatusReport (sample e) s2;
                             Some (s2\<lparr>reportTimer := 0\<rparr>, r) }
                   else Some (s2, []));
     tx3 \<leftarrow> sendWarningIfNeeded (sample e);
     Some (s3\<lparr>reportTimer := reportTimer s3 + elapsed e\<rparr>, tx1 @ tx2 @ tx3)
   }"

text \<open>
  The loop never ends; a run of the model is the finite prefix of it that a list of
  environment samples drives.
\<close>

fun mainLoop :: "state \<Rightarrow> env list \<Rightarrow> (state \<times> string) option" where
  "mainLoop s [] = Some (s, [])"
| "mainLoop s (e # es) =
     (case loopIteration e s of
        None \<Rightarrow> None
      | Some (s1, tx) \<Rightarrow>
          (case mainLoop s1 es of
             None \<Rightarrow> None
           | Some (s2, tx') \<Rightarrow> Some (s2, tx @ tx')))"

subsection \<open>Conditions and observations the properties speak about\<close>

text \<open>
  The valid deactivation sequence, on the state that \<open>alarmDeactivationUpdate\<close> is
  entered with: enter pressed, incorrect-code indicator off, alarm active, a and b
  pressed, c and d released, lockout counter below 5.
\<close>

definition validDeactivation :: "pins \<Rightarrow> state \<Rightarrow> bool" where
  "validDeactivation p s =
     (enterButton p \<and> \<not> incorrectCodeLed s \<and> alarmState s \<and>
      aButton p \<and> bButton p \<and> \<not> cButton p \<and> \<not> dButton p \<and>
      numberOfIncorrectCodes s < 5)"

text \<open>
  The condition that switches the incorrect-code indicator off: all four code buttons
  pressed, enter released, lockout counter below 5.
\<close>

definition clearCondition :: "pins \<Rightarrow> state \<Rightarrow> bool" where
  "clearCondition p s =
     (aButton p \<and> bButton p \<and> cButton p \<and> dButton p \<and> \<not> enterButton p \<and>
      numberOfIncorrectCodes s < 5)"

text \<open>No iteration of the run meets the valid deactivation sequence.\<close>

fun noDeactivation :: "state \<Rightarrow> env list \<Rightarrow> bool" where
  "noDeactivation s [] = True"
| "noDeactivation s (e # es) =
     (\<not> validDeactivation (sample e) (alarmActivationUpdate (sample e) s) \<and>
      (case loopIteration e s of
         None \<Rightarrow> True
       | Some (s1, tx) \<Rightarrow> noDeactivation s1 es))"

text \<open>No iteration of the run meets the clear condition.\<close>

fun noClear :: "state \<Rightarrow> env list \<Rightarrow> bool" where
  "noClear s [] = True"
| "noClear s (e # es) =
     (\<not> clearCondition (sample e) (alarmActivationUpdate (sample e) s) \<and>
      (case loopIteration e s of
         None \<Rightarrow> True
       | Some (s1, tx) \<Rightarrow> noClear s1 es))"

text \<open>The number of iterations of the run that count the counter up.\<close>

fun increments :: "state \<Rightarrow> env list \<Rightarrow> nat" where
  "increments s [] = 0"
| "increments s (e # es) =
     (case loopIteration e s of
        None \<Rightarrow> 0
      | Some (s1, tx) \<Rightarrow>
          (if numberOfIncorrectCodes s1 = numberOfIncorrectCodes s + 1 then 1 else 0) +
          increments s1 es)"

text \<open>
  The times at which the iterations of a run send the status report, on a clock that
  shows \<open>now\<close> when the run starts and advances by \<open>elapsed\<close> with each iteration.
  Neither update function writes the timer, so the test of the loop body is taken on
  the state the iteration starts with.
\<close>

fun reportTimes :: "rat \<Rightarrow> state \<Rightarrow> env list \<Rightarrow> rat list" where
  "reportTimes now s [] = []"
| "reportTimes now s (e # es) =
     (case loopIteration e s of
        None \<Rightarrow> []
      | Some (s1, tx) \<Rightarrow>
          (if reportDue s then [now] else []) @ reportTimes (now + elapsed e) s1 es)"

text \<open>How many of the times \<open>ts\<close> lie in the window from \<open>w\<close> up to, not including, \<open>w + 5\<close>.\<close>

definition reportsInWindow :: "rat \<Rightarrow> rat list \<Rightarrow> nat" where
  "reportsInWindow w ts = length (filter (\<lambda>t. w \<le> t \<and> t < w + 5) ts)"

text \<open>Each time of the list is at least 5 later than the one before it.\<close>

fun spacedByFive :: "rat list \<Rightarrow> bool" where
  "spacedByFive [] = True"
| "spacedByFive [t] = True"
| "spacedByFive (t # u # ts) = (t + 5 \<le> u \<and> spacedByFive (u # ts))"

text \<open>
  The help text as the four string literals of \<open>availableCommands\<close> spell it, each
  line ended by carriage return and line feed.
\<close>

definition helpText :: string where
  "helpText =
     ''Available commands:'' @ [CR, LF] @
     ''Press '1' to get the alarm state'' @ [CR, LF] @
     ''Press '2' to check gas status'' @ [CR, LF] @
     ''Press '3' to check temperature status'' @ [CR, LF, CR, LF]"

text \<open>
  The number of complete lines in a byte stream, a line being ended by carriage return
  and line feed, as the serial protocol has it.
\<close>

fun crlfLines :: "string \<Rightarrow> nat" where
  "crlfLines (c # d # cs) =
     (if c = CR \<and> d = LF then Suc (crlfLines cs) else crlfLines (d # cs))"
| "crlfLines cs = 0"

subsection \<open>Concrete inputs\<close>

definition idlePins :: pins where
  "idlePins =
     \<lparr>enterButton = False, gasDetector = False, overTempDetector = False,
      aButton = False, bButton = False, cButton = False, dButton = False\<rparr>"

definition gasPins :: pins where
  "gasPins = idlePins\<lparr>gasDetector := True\<rparr>"

definition correctCodePins :: pins where
  "correctCodePins = idlePins\<lparr>enterButton := True, aButton := True, bButton := True\<rparr>"

definition wrongCodePins :: pins where
  "wrongCodePins = idlePins\<lparr>enterButton := True, aButton := True\<rparr>"

definition clearPins :: pins where
  "clearPins = idlePins\<lparr>aButton := True, bButton := True, cButton := True, dButton := True\<rparr>"

text \<open>An iteration with nothing on the serial port that takes 110 ms.\<close>

definition quiet :: "pins \<Rightarrow> env" where
  "quiet p = \<lparr>sample = p, received = None, elapsed = 11 / 100\<rparr>"

text \<open>The alarm is on and one wrong code has been entered.\<close>

definition oneWrongCodeState :: state where
  "oneWrongCodeState =
     \<lparr>alarmLed = True, incorrectCodeLed = True, systemBlockedLed = False,
      alarmState = True, numberOfIncorrectCodes = 1, reportTimer = 11 / 100\<rparr>"

text \<open>The alarm is on, two wrong codes have been entered and the indicator is cleared.\<close>

definition alarmOnState :: state where
  "alarmOnState =
     \<lparr>alarmLed = True, incorrectCodeLed = False, systemBlockedLed = False,
      alarmState = True, numberOfIncorrectCodes = 2, reportTimer = 33 / 100\<rparr>"

text \<open>The alarm is on and five wrong codes have been entered.\<close>

definition lockedState :: state where
  "lockedState =
     \<lparr>alarmLed = True, incorrectCodeLed = True, systemBlockedLed = False,
      alarmState = True, numberOfIncorrectCodes = 5, reportTimer = 99 / 100\<rparr>"

text \<open>Five wrong codes, the indicator cleared after each of the first four.\<close>

definition fiveWrongCodes :: "env list" where
  "fiveWrongCodes =
     [quiet (wrongCodePins\<lparr>gasDetector := True\<rparr>), quiet clearPins,
      quiet wrongCodePins, quiet clearPins,
      quiet wrongCodePins, quiet clearPins,
      quiet wrongCodePins, quiet clearPins,
      quiet wrongCodePins]"

text \<open>
  A wrong code, then the correct code while the indicator is still on, then nothing
  pressed.
\<close>

definition blockedAttempts :: "env list" where
  "blockedAttempts = [quiet wrongCodePins, quiet correctCodePins, quiet idlePins]"

text \<open>93 iterations of 110 ms with nothing pressed, detected or received.\<close>

definition idleRun :: "env list" where
  "idleRun = replicate 93 (quiet idlePins)"

section \<open>Properties\<close>

subsection \<open>The serial functions never read outside their buffers\<close>

lemmas serial_defs = uartWrite_def literal_def CR_def LF_def NUL_def

lemma availableCommands_eq:
  "availableCommands =
     Some (''Available commands:'' @ [CR, LF] @
           ''Press '1' to get the alarm state'' @ [CR] @
           ''Press '2' to check gas status'' @ [CR, LF, NUL] @
           ''Press '3' to check temperature status'' @ [CR, LF, CR, LF])"
  by (simp add: availableCommands_def serial_defs)

lemma uartTask_total: "\<exists>tx. uartTask p rx s = Some tx"
  by (cases rx) (simp_all add: uartTask_def availableCommands_eq, simp_all add: serial_defs)

lemma sendStatusReport_total: "\<exists>tx. sendStatusReport p s = Some tx"
  by (simp add: sendStatusReport_def snprintf_def statusReportText_def serial_defs)

lemma sendWarningIfNeeded_eq:
  "sendWarningIfNeeded p =
     Some ((if gasDetector p then ''[WARNING] Gas levels unsafe!'' @ [CR] else []) @
           (if overTempDetector p then ''[WARNING] Temperature too high!'' @ [CR, LF] else []))"
  by (simp add: sendWarningIfNeeded_def serial_defs)

subsection \<open>One loop iteration always completes\<close>

lemma reportTimer_alarmUpdates:
  "reportTimer (alarmDeactivationUpdate p (alarmActivationUpdate p s)) = reportTimer s"
  by (simp add: alarmDeactivationUpdate_def alarmActivationUpdate_def Let_def)

lemma loopIteration_Some:
  "\<exists>tx. loopIteration e s =
     Some ((alarmDeactivationUpdate (sample e) (alarmActivationUpdate (sample e) s))
             \<lparr>reportTimer := (if reportDue s then 0 else reportTimer s) + elapsed e\<rparr>, tx)"
proof -
  let ?s2 = "alarmDeactivationUpdate (sample e) (alarmActivationUpdate (sample e) s)"
  obtain tx1 where 1: "uartTask (sample e) (received e) ?s2 = Some tx1"
    using uartTask_total by blast
  obtain r where 2: "sendStatusReport (sample e) ?s2 = Some r"
    using sendStatusReport_total by blast
  have 3: "reportDue ?s2 = reportDue s"
    by (simp add: reportDue_def reportTimer_alarmUpdates)
  show ?thesis
    by (simp add: loopIteration_def 1 2 3 sendWarningIfNeeded_eq reportTimer_alarmUpdates)
qed

subsection \<open>Code entry\<close>

text \<open>
  C2. With the lockout counter below 5, enter pressed, the incorrect-code indicator off
  and the alarm active, \<open>alarmDeactivationUpdate\<close> does one of two things and nothing
  else: if a and b are pressed and c and d released it sets \<open>alarmState\<close> to false and
  \<open>numberOfIncorrectCodes\<close> to 0; for every other combination of the four buttons it
  switches the incorrect-code indicator on and adds 1 to \<open>numberOfIncorrectCodes\<close>.
\<close>

theorem deactivation_evaluates_code:
  assumes "numberOfIncorrectCodes s < 5" and "enterButton p"
      and "\<not> incorrectCodeLed s" and "alarmState s"
  shows "(aButton p \<and> bButton p \<and> \<not> cButton p \<and> \<not> dButton p \<longrightarrow>
            alarmDeactivationUpdate p s = s\<lparr>alarmState := False, numberOfIncorrectCodes := 0\<rparr>) \<and>
         (\<not> (aButton p \<and> bButton p \<and> \<not> cButton p \<and> \<not> dButton p) \<longrightarrow>
            alarmDeactivationUpdate p s =
              s\<lparr>incorrectCodeLed := True,
                 numberOfIncorrectCodes := numberOfIncorrectCodes s + 1\<rparr>)"
  using assms by (simp add: alarmDeactivationUpdate_def)

theorem deactivation_evaluates_code_witness:
  "numberOfIncorrectCodes alarmOnState < 5 \<and>
   enterButton correctCodePins \<and> enterButton wrongCodePins \<and>
   \<not> incorrectCodeLed alarmOnState \<and> alarmState alarmOnState \<and>
   (aButton correctCodePins \<and> bButton correctCodePins \<and>
    \<not> cButton correctCodePins \<and> \<not> dButton correctCodePins) \<and>
   \<not> (aButton wrongCodePins \<and> bButton wrongCodePins \<and>
      \<not> cButton wrongCodePins \<and> \<not> dButton wrongCodePins) \<and>
   alarmDeactivationUpdate correctCodePins alarmOnState =
     alarmOnState\<lparr>alarmState := False, numberOfIncorrectCodes := 0\<rparr> \<and>
   alarmDeactivationUpdate wrongCodePins alarmOnState =
     alarmOnState\<lparr>incorrectCodeLed := True, numberOfIncorrectCodes := 3\<rparr>"
  using deactivation_evaluates_code [of alarmOnState correctCodePins]
        deactivation_evaluates_code [of alarmOnState wrongCodePins]
  by (simp add: alarmOnState_def correctCodePins_def wrongCodePins_def idlePins_def)

text \<open>
  C4 as stated fails: with the counter at 1, the four code buttons released and enter
  not pressed, the incorrect-code indicator that was on is still on after
  \<open>alarmDeactivationUpdate\<close>.
\<close>

theorem released_buttons_do_not_clear_counterexample:
  "numberOfIncorrectCodes oneWrongCodeState < 5 \<and>
   \<not> aButton idlePins \<and> \<not> bButton idlePins \<and> \<not> cButton idlePins \<and> \<not> dButton idlePins \<and>
   \<not> enterButton idlePins \<and>
   incorrectCodeLed (alarmDeactivationUpdate idlePins oneWrongCodeState)"
  by (simp add: alarmDeactivationUpdate_def oneWrongCodeState_def idlePins_def)

text \<open>
  C4, amended. With the lockout counter below 5, all four code buttons pressed while
  enter is not pressed makes \<open>alarmDeactivationUpdate\<close> switch the incorrect-code
  indicator off; while one of the four buttons is released, an indicator that is on
  stays on.
\<close>

theorem pressed_buttons_clear_indicator:
  "(numberOfIncorrectCodes s < 5 \<and>
    aButton p \<and> bButton p \<and> cButton p \<and> dButton p \<and> \<not> enterButton p
      \<longrightarrow> \<not> incorrectCodeLed (alarmDeactivationUpdate p s)) \<and>
   (incorrectCodeLed s \<and> \<not> (aButton p \<and> bButton p \<and> cButton p \<and> dButton p)
      \<longrightarrow> incorrectCodeLed (alarmDeactivationUpdate p s))"
  by (simp add: alarmDeactivationUpdate_def)

theorem pressed_buttons_clear_indicator_witness:
  "numberOfIncorrectCodes oneWrongCodeState < 5 \<and> aButton clearPins \<and> bButton clearPins \<and>
   cButton clearPins \<and> dButton clearPins \<and> \<not> enterButton clearPins \<and>
   incorrectCodeLed oneWrongCodeState \<and>
   \<not> incorrectCodeLed (alarmDeactivationUpdate clearPins oneWrongCodeState) \<and>
   \<not> (aButton idlePins \<and> bButton idlePins \<and> cButton idlePins \<and> dButton idlePins) \<and>
   incorrectCodeLed (alarmDeactivationUpdate idlePins oneWrongCodeState)"
  using pressed_buttons_clear_indicator [of oneWrongCodeState clearPins]
        pressed_buttons_clear_indicator [of oneWrongCodeState idlePins]
  by (simp add: oneWrongCodeState_def clearPins_def idlePins_def)

subsection \<open>The alarm indicator\<close>

text \<open>
  C3 as stated fails: from the initial state, with gas detected and the correct code
  entered in the same iteration, \<open>alarmActivationUpdate\<close> followed by
  \<open>alarmDeactivationUpdate\<close> leaves \<open>alarmLed\<close> on and \<open>alarmState\<close> false.
\<close>

theorem alarmLed_lags_counterexample:
  "alarmLed (alarmDeactivationUpdate (correctCodePins\<lparr>gasDetector := True\<rparr>)
              (alarmActivationUpdate (correctCodePins\<lparr>gasDetector := True\<rparr>) initialState)) \<noteq>
   alarmState (alarmDeactivationUpdate (correctCodePins\<lparr>gasDetector := True\<rparr>)
              (alarmActivationUpdate (correctCodePins\<lparr>gasDetector := True\<rparr>) initialState))"
  by (simp add: alarmDeactivationUpdate_def alarmActivationUpdate_def initialState_def
      correctCodePins_def idlePins_def)

text \<open>
  C3, amended. For all sensor and button states, \<open>alarmLed\<close> equals \<open>alarmState\<close>
  right after \<open>alarmActivationUpdate\<close>, and \<open>alarmDeactivationUpdate\<close> leaves
  \<open>alarmLed\<close> at that value. So after one full loop iteration \<open>alarmLed\<close> equals
  \<open>alarmState\<close> unless the valid deactivation sequence was met in that iteration; in
  that case \<open>alarmState\<close> is false and \<open>alarmLed\<close> is still on (until the next
  \<open>alarmActivationUpdate\<close>).
\<close>

theorem alarmLed_mirrors_activation:
  "alarmLed (alarmActivationUpdate p s) = alarmState (alarmActivationUpdate p s) \<and>
   alarmLed (alarmDeactivationUpdate p (alarmActivationUpdate p s)) =
     alarmState (alarmActivationUpdate p s) \<and>
   (\<not> validDeactivation p (alarmActivationUpdate p s) \<longrightarrow>
      alarmLed (alarmDeactivationUpdate p (alarmActivationUpdate p s)) =
      alarmState (alarmDeactivationUpdate p (alarmActivationUpdate p s))) \<and>
   (validDeactivation p (alarmActivationUpdate p s) \<longrightarrow>
      alarmLed (alarmDeactivationUpdate p (alarmActivationUpdate p s)) \<and>
      \<not> alarmState (alarmDeactivationUpdate p (alarmActivationUpdate p s)))"
  by (auto simp add: alarmDeactivationUpdate_def alarmActivationUpdate_def
      validDeactivation_def Let_def)

theorem alarmLed_mirrors_activation_witness:
  "\<not> validDeactivation gasPins (alarmActivationUpdate gasPins initialState) \<and>
   alarmLed (alarmDeactivationUpdate gasPins (alarmActivationUpdate gasPins initialState)) \<and>
   alarmState (alarmDeactivationUpdate gasPins (alarmActivationUpdate gasPins initialState)) \<and>
   validDeactivation correctCodePins (alarmActivationUpdate correctCodePins alarmOnState) \<and>
   alarmLed (alarmDeactivationUpdate correctCodePins
              (alarmActivationUpdate correctCodePins alarmOnState)) \<and>
   \<not> alarmState (alarmDeactivationUpdate correctCodePins
                  (alarmActivationUpdate correctCodePins alarmOnState))"
  using alarmLed_mirrors_activation [of gasPins initialState]
        alarmLed_mirrors_activation [of correctCodePins alarmOnState]
  by (simp add: validDeactivation_def alarmActivationUpdate_def alarmDeactivationUpdate_def
      gasPins_def correctCodePins_def idlePins_def initialState_def alarmOnState_def)

subsection \<open>Runs of the main loop\<close>

lemma loopIteration_fields:
  assumes "loopIteration e s = Some (s1, tx)"
  shows "alarmState s1 = alarmState (alarmDeactivationUpdate (sample e) (alarmActivationUpdate (sample e) s))"
    and "numberOfIncorrectCodes s1 =
           numberOfIncorrectCodes (alarmDeactivationUpdate (sample e) (alarmActivationUpdate (sample e) s))"
    and "incorrectCodeLed s1 =
           incorrectCodeLed (alarmDeactivationUpdate (sample e) (alarmActivationUpdate (sample e) s))"
    and "systemBlockedLed s1 =
           systemBlockedLed (alarmDeactivationUpdate (sample e) (alarmActivationUpdate (sample e) s))"
    and "alarmLed s1 = alarmLed (alarmDeactivationUpdate (sample e) (alarmActivationUpdate (sample e) s))"
    and "reportTimer s1 = (if reportDue s then 0 else reportTimer s) + elapsed e"
  using assms loopIteration_Some [of e s] by auto

lemma mainLoop_invariant:
  assumes "P s"
      and "\<And>e s s1 tx. P s \<Longrightarrow> loopIteration e s = Some (s1, tx) \<Longrightarrow> P s1"
  shows "\<exists>s' tx. mainLoop s es = Some (s', tx) \<and> P s'"
  using assms(1)
proof (induction es arbitrary: s)
  case Nil
  then show ?case by simp
next
  case (Cons e es)
  obtain s1 tx where L: "loopIteration e s = Some (s1, tx)"
    using loopIteration_Some [of e s] by blast
  have "P s1" using assms(2) Cons.prems L by blast
  then obtain s' tx' where "mainLoop s1 es = Some (s', tx')" "P s'"
    using Cons.IH by blast
  then show ?case using L by simp
qed

subsection \<open>The lockout counter\<close>

lemma counter_step:
  "numberOfIncorrectCodes (alarmActivationUpdate p s) = numberOfIncorrectCodes s"
  "numberOfIncorrectCodes (alarmDeactivationUpdate p s) = numberOfIncorrectCodes s \<or>
   numberOfIncorrectCodes (alarmDeactivationUpdate p s) = 0 \<or>
   (numberOfIncorrectCodes s < 5 \<and>
    numberOfIncorrectCodes (alarmDeactivationUpdate p s) = numberOfIncorrectCodes s + 1)"
  by (auto simp add: alarmActivationUpdate_def alarmDeactivationUpdate_def Let_def)

lemma counter_range_step:
  assumes "0 \<le> numberOfIncorrectCodes s \<and> numberOfIncorrectCodes s \<le> 5"
      and "loopIteration e s = Some (s1, tx)"
  shows "0 \<le> numberOfIncorrectCodes s1 \<and> numberOfIncorrectCodes s1 \<le> 5"
  using assms(1) loopIteration_fields(2) [OF assms(2)]
    counter_step(2) [of "sample e" "alarmActivationUpdate (sample e) s"]
    counter_step(1) [of "sample e" s]
  by auto

lemma locked_call:
  "numberOfIncorrectCodes s = 5 \<Longrightarrow> alarmDeactivationUpdate p s = s\<lparr>systemBlockedLed := True\<rparr>"
  by (simp add: alarmDeactivationUpdate_def)

lemma locked_step:
  assumes "numberOfIncorrectCodes s = 5 \<and> (a \<longrightarrow> alarmState s) \<and> (b \<longrightarrow> systemBlockedLed s)"
      and "loopIteration e s = Some (s1, tx)"
  shows "numberOfIncorrectCodes s1 = 5 \<and> (a \<longrightarrow> alarmState s1) \<and> systemBlockedLed s1"
  using assms(1) loopIteration_fields [OF assms(2)]
  by (auto simp add: alarmDeactivationUpdate_def alarmActivationUpdate_def Let_def)

lemma locked_run:
  assumes "numberOfIncorrectCodes s = 5"
  shows "\<exists>s' tx. mainLoop s es = Some (s', tx) \<and> numberOfIncorrectCodes s' = 5 \<and>
            (alarmState s \<longrightarrow> alarmState s') \<and> (es \<noteq> [] \<longrightarrow> systemBlockedLed s')"
proof (cases es)
  case Nil
  then show ?thesis using assms by simp
next
  case (Cons e es')
  obtain s1 tx where L: "loopIteration e s = Some (s1, tx)"
    using loopIteration_Some [of e s] by blast
  have 1: "numberOfIncorrectCodes s1 = 5 \<and> (alarmState s \<longrightarrow> alarmState s1) \<and> systemBlockedLed s1"
    using locked_step [of s "alarmState s" False e s1 tx] assms L by simp
  have "\<exists>s' tx. mainLoop s1 es' = Some (s', tx) \<and>
          (numberOfIncorrectCodes s' = 5 \<and> (alarmState s \<longrightarrow> alarmState s') \<and> systemBlockedLed s')"
  proof (rule mainLoop_invariant [where P = "\<lambda>t. numberOfIncorrectCodes t = 5 \<and> (alarmState s \<longrightarrow> alarmState t) \<and> systemBlockedLed t"])
    show "numberOfIncorrectCodes s1 = 5 \<and> (alarmState s \<longrightarrow> alarmState s1) \<and> systemBlockedLed s1"
      by (rule 1)
  next
    fix e t t1 tx
    assume "numberOfIncorrectCodes t = 5 \<and> (alarmState s \<longrightarrow> alarmState t) \<and> systemBlockedLed t"
       and "loopIteration e t = Some (t1, tx)"
    then show "numberOfIncorrectCodes t1 = 5 \<and> (alarmState s \<longrightarrow> alarmState t1) \<and> systemBlockedLed t1"
      using locked_step [of t "alarmState s" True e t1 tx] by simp
  qed
  then show ?thesis using L Cons by auto
qed

text \<open>
  C7. On every run from the initial state \<open>numberOfIncorrectCodes\<close> stays within 0 to 5:
  \<open>alarmActivationUpdate\<close> does not write it, and \<open>alarmDeactivationUpdate\<close> leaves it,
  resets it to 0, or adds 1 while it is strictly below 5. Once it is 5,
  \<open>alarmDeactivationUpdate\<close> only switches the system-blocked indicator on, whatever the
  buttons show (the correct pattern included), and on every later run the counter stays
  5, an active alarm stays active, and the system-blocked indicator is on after the
  first iteration and stays on.
\<close>

theorem lockout_counter_bounded_and_permanent:
  "(\<exists>s tx. mainLoop initialState es = Some (s, tx) \<and>
            0 \<le> numberOfIncorrectCodes s \<and> numberOfIncorrectCodes s \<le> 5) \<and>
   numberOfIncorrectCodes (alarmActivationUpdate p t) = numberOfIncorrectCodes t \<and>
   (numberOfIncorrectCodes (alarmDeactivationUpdate p t) = numberOfIncorrectCodes t \<or>
    numberOfIncorrectCodes (alarmDeactivationUpdate p t) = 0 \<or>
    (numberOfIncorrectCodes t < 5 \<and>
     numberOfIncorrectCodes (alarmDeactivationUpdate p t) = numberOfIncorrectCodes t + 1)) \<and>
   (numberOfIncorrectCodes s0 = 5 \<longrightarrow>
      alarmDeactivationUpdate p s0 = s0\<lparr>systemBlockedLed := True\<rparr> \<and>
      (\<exists>s tx. mainLoop s0 es = Some (s, tx) \<and> numberOfIncorrectCodes s = 5 \<and>
               (alarmState s0 \<longrightarrow> alarmState s) \<and> (es \<noteq> [] \<longrightarrow> systemBlockedLed s)))"
proof -
  have "\<exists>s tx. mainLoop initialState es = Some (s, tx) \<and>
          (0 \<le> numberOfIncorrectCodes s \<and> numberOfIncorrectCodes s \<le> 5)"
    by (rule mainLoop_invariant [where P = "\<lambda>s. 0 \<le> numberOfIncorrectCodes s \<and> numberOfIncorrectCodes s \<le> 5"])
       (simp add: initialState_def, rule counter_range_step)
  then show ?thesis
    using counter_step [of p t] locked_call [of s0 p] locked_run [of s0 es] by blast
qed

lemma fiveWrongCodes_run:
  "map_option fst (mainLoop initialState fiveWrongCodes) = Some lockedState"
  by (simp add: fiveWrongCodes_def quiet_def loopIteration_def alarmActivationUpdate_def
      alarmDeactivationUpdate_def uartTask_def sendWarningIfNeeded_eq reportDue_def
      wrongCodePins_def clearPins_def idlePins_def initialState_def lockedState_def)

theorem lockout_counter_bounded_and_permanent_witness:
  "map_option fst (mainLoop initialState fiveWrongCodes) = Some lockedState \<and>
   numberOfIncorrectCodes lockedState = 5 \<and> alarmState lockedState \<and>
   alarmDeactivationUpdate correctCodePins lockedState = lockedState\<lparr>systemBlockedLed := True\<rparr> \<and>
   (\<exists>s tx. mainLoop lockedState [quiet clearPins, quiet correctCodePins] = Some (s, tx) \<and>
       numberOfIncorrectCodes s = 5 \<and> alarmState s \<and> systemBlockedLed s)"
  using lockout_counter_bounded_and_permanent
          [of "[quiet clearPins, quiet correctCodePins]" correctCodePins lockedState lockedState]
        fiveWrongCodes_run
  by (simp add: lockedState_def)

subsection \<open>The incorrect-code indicator blocks further attempts\<close>

lemma indicator_blocks_call:
  "incorrectCodeLed s \<Longrightarrow>
     numberOfIncorrectCodes (alarmDeactivationUpdate p s) = numberOfIncorrectCodes s \<and>
     alarmState (alarmDeactivationUpdate p s) = alarmState s \<and>
     incorrectCodeLed (alarmDeactivationUpdate p s) = (\<not> clearCondition p s)"
  by (auto simp add: alarmDeactivationUpdate_def clearCondition_def)

lemma clear_call:
  "clearCondition p s \<Longrightarrow>
     numberOfIncorrectCodes (alarmDeactivationUpdate p s) = numberOfIncorrectCodes s"
  by (auto simp add: alarmDeactivationUpdate_def clearCondition_def)

lemma blocked_step:
  assumes "incorrectCodeLed s" and "\<not> clearCondition (sample e) (alarmActivationUpdate (sample e) s)"
      and "loopIteration e s = Some (s1, tx)"
  shows "incorrectCodeLed s1 \<and> numberOfIncorrectCodes s1 = numberOfIncorrectCodes s \<and>
         (alarmState s \<longrightarrow> alarmState s1)"
proof -
  let ?a = "alarmActivationUpdate (sample e) s"
  have a: "incorrectCodeLed ?a" "numberOfIncorrectCodes ?a = numberOfIncorrectCodes s"
    "alarmState s \<longrightarrow> alarmState ?a"
    using assms(1) by (simp_all add: alarmActivationUpdate_def Let_def)
  show ?thesis
    using indicator_blocks_call [OF a(1), of "sample e"] a(2,3) assms(2)
      loopIteration_fields(1,2,3) [OF assms(3)]
    by simp
qed

lemma blocked_run:
  "incorrectCodeLed s \<Longrightarrow> noClear s es \<Longrightarrow>
     \<exists>s' tx. mainLoop s es = Some (s', tx) \<and> incorrectCodeLed s' \<and>
       numberOfIncorrectCodes s' = numberOfIncorrectCodes s \<and>
       (alarmState s \<longrightarrow> alarmState s') \<and> increments s es = 0"
proof (induction es arbitrary: s)
  case Nil
  then show ?case by simp
next
  case (Cons e es)
  obtain s1 tx where L: "loopIteration e s = Some (s1, tx)"
    using loopIteration_Some [of e s] by blast
  have nc: "\<not> clearCondition (sample e) (alarmActivationUpdate (sample e) s)" "noClear s1 es"
    using Cons.prems(2) L by simp_all
  have 1: "incorrectCodeLed s1 \<and> numberOfIncorrectCodes s1 = numberOfIncorrectCodes s \<and>
         (alarmState s \<longrightarrow> alarmState s1)"
    using blocked_step [OF Cons.prems(1) nc(1) L] .
  obtain s' tx' where 2: "mainLoop s1 es = Some (s', tx')" "incorrectCodeLed s'"
      "numberOfIncorrectCodes s' = numberOfIncorrectCodes s1"
      "alarmState s1 \<longrightarrow> alarmState s'" "increments s1 es = 0"
    using Cons.IH [of s1] 1 nc(2) by blast
  show ?case using L 1 2 by simp
qed

lemma increment_sets_indicator:
  assumes "loopIteration e s = Some (s1, tx)"
      and "numberOfIncorrectCodes s1 = numberOfIncorrectCodes s + 1"
      and "0 \<le> numberOfIncorrectCodes s"
  shows "incorrectCodeLed s1"
proof -
  have "numberOfIncorrectCodes (alarmDeactivationUpdate p t) = numberOfIncorrectCodes t + 1
          \<Longrightarrow> 0 \<le> numberOfIncorrectCodes t
          \<Longrightarrow> incorrectCodeLed (alarmDeactivationUpdate p t)" for p t
    by (auto simp add: alarmDeactivationUpdate_def Let_def split: if_splits)
  moreover have "numberOfIncorrectCodes (alarmActivationUpdate (sample e) s) = numberOfIncorrectCodes s"
    by (simp add: alarmActivationUpdate_def Let_def)
  ultimately show ?thesis
    using loopIteration_fields(2,3) [OF assms(1)] assms(2,3) by simp
qed

lemma counter_step_le:
  assumes "loopIteration e s = Some (s1, tx)" and "0 \<le> numberOfIncorrectCodes s"
  shows "0 \<le> numberOfIncorrectCodes s1"
    and "numberOfIncorrectCodes s1 \<le> numberOfIncorrectCodes s + 1"
    and "numberOfIncorrectCodes s1 \<noteq> numberOfIncorrectCodes s + 1 \<Longrightarrow>
           numberOfIncorrectCodes s1 \<le> numberOfIncorrectCodes s"
proof -
  have "numberOfIncorrectCodes s1 =
          numberOfIncorrectCodes (alarmDeactivationUpdate (sample e) (alarmActivationUpdate (sample e) s))"
    using loopIteration_fields(2) [OF assms(1)] .
  then have "numberOfIncorrectCodes s1 = numberOfIncorrectCodes s \<or> numberOfIncorrectCodes s1 = 0 \<or>
     numberOfIncorrectCodes s1 = numberOfIncorrectCodes s + 1"
    by (auto simp add: alarmActivationUpdate_def alarmDeactivationUpdate_def Let_def)
  then show "0 \<le> numberOfIncorrectCodes s1"
    and "numberOfIncorrectCodes s1 \<le> numberOfIncorrectCodes s + 1"
    and "numberOfIncorrectCodes s1 \<noteq> numberOfIncorrectCodes s + 1 \<Longrightarrow>
           numberOfIncorrectCodes s1 \<le> numberOfIncorrectCodes s"
    using assms(2) by auto
qed

lemma one_increment_run:
  "noClear s es \<Longrightarrow> 0 \<le> numberOfIncorrectCodes s \<Longrightarrow>
     \<exists>s' tx. mainLoop s es = Some (s', tx) \<and> increments s es \<le> 1 \<and>
       numberOfIncorrectCodes s' \<le> numberOfIncorrectCodes s + 1"
proof (induction es arbitrary: s)
  case Nil
  then show ?case by simp
next
  case (Cons e es)
  obtain s1 tx where L: "loopIteration e s = Some (s1, tx)"
    using loopIteration_Some [of e s] by blast
  have nc: "noClear s1 es" using Cons.prems(1) L by simp
  note st = counter_step_le [OF L Cons.prems(2)]
  show ?case
  proof (cases "numberOfIncorrectCodes s1 = numberOfIncorrectCodes s + 1")
    case True
    then have "incorrectCodeLed s1" using increment_sets_indicator [OF L] Cons.prems(2) by simp
    then obtain s' tx' where "mainLoop s1 es = Some (s', tx')"
      "numberOfIncorrectCodes s' = numberOfIncorrectCodes s1" "increments s1 es = 0"
      using blocked_run [of s1 es] nc by blast
    then show ?thesis using L True by simp
  next
    case False
    obtain s' tx' where "mainLoop s1 es = Some (s', tx')" "increments s1 es \<le> 1"
      "numberOfIncorrectCodes s' \<le> numberOfIncorrectCodes s1 + 1"
      using Cons.IH [OF nc st(1)] by blast
    then show ?thesis using L False st(3) by simp
  qed
qed

text \<open>
  C10. While the incorrect-code indicator is on, \<open>alarmDeactivationUpdate\<close> changes
  neither \<open>numberOfIncorrectCodes\<close> nor \<open>alarmState\<close>, whatever the enter button
  shows, and the indicator goes off exactly under the clear condition (all four code
  buttons pressed, enter released, counter below 5), which itself does not count. So on
  a run without the clear condition an indicator that is on stays on, with the counter
  unchanged and the alarm not switched off; and on any run without the clear condition
  (from a state with a counter that is not negative) at most one iteration counts the
  counter up, and the counter ends at most 1 higher.
\<close>

theorem indicator_blocks_code_entry:
  "(incorrectCodeLed s \<longrightarrow>
      numberOfIncorrectCodes (alarmDeactivationUpdate p s) = numberOfIncorrectCodes s \<and>
      alarmState (alarmDeactivationUpdate p s) = alarmState s \<and>
      incorrectCodeLed (alarmDeactivationUpdate p s) = (\<not> clearCondition p s)) \<and>
   (clearCondition p s \<longrightarrow>
      numberOfIncorrectCodes (alarmDeactivationUpdate p s) = numberOfIncorrectCodes s) \<and>
   (incorrectCodeLed s \<and> noClear s es \<longrightarrow>
      (\<exists>s' tx. mainLoop s es = Some (s', tx) \<and> incorrectCodeLed s' \<and>
         numberOfIncorrectCodes s' = numberOfIncorrectCodes s \<and>
         (alarmState s \<longrightarrow> alarmState s') \<and> increments s es = 0)) \<and>
   (noClear s es \<and> 0 \<le> numberOfIncorrectCodes s \<longrightarrow>
      (\<exists>s' tx. mainLoop s es = Some (s', tx) \<and> increments s es \<le> 1 \<and>
         numberOfIncorrectCodes s' \<le> numberOfIncorrectCodes s + 1))"
  using indicator_blocks_call [of s p] clear_call [of p s] blocked_run [of s es]
    one_increment_run [of s es]
  by blast

lemmas run_defs = quiet_def loopIteration_def alarmActivationUpdate_def
      alarmDeactivationUpdate_def uartTask_def sendWarningIfNeeded_eq reportDue_def
      wrongCodePins_def correctCodePins_def clearPins_def gasPins_def idlePins_def

theorem indicator_blocks_code_entry_witness:
  "incorrectCodeLed oneWrongCodeState \<and> 
   \<not> clearCondition wrongCodePins oneWrongCodeState \<and>
   numberOfIncorrectCodes (alarmDeactivationUpdate wrongCodePins oneWrongCodeState) = 1 \<and>
   alarmState (alarmDeactivationUpdate wrongCodePins oneWrongCodeState) \<and>
   incorrectCodeLed (alarmDeactivationUpdate wrongCodePins oneWrongCodeState) \<and>
   noClear oneWrongCodeState blockedAttempts \<and>
   (\<exists>s' tx. mainLoop oneWrongCodeState blockedAttempts = Some (s', tx) \<and>
       incorrectCodeLed s' \<and> numberOfIncorrectCodes s' = 1 \<and> alarmState s') \<and>
   increments oneWrongCodeState blockedAttempts = 0 \<and>
   clearCondition clearPins alarmOnState \<and>
   numberOfIncorrectCodes (alarmDeactivationUpdate clearPins alarmOnState) = 2 \<and>
   noClear alarmOnState blockedAttempts \<and> 0 \<le> numberOfIncorrectCodes alarmOnState \<and>
   increments alarmOnState blockedAttempts = 1 \<and>
   (\<exists>s' tx. mainLoop alarmOnState blockedAttempts = Some (s', tx) \<and>
       numberOfIncorrectCodes s' \<le> 3)"
proof -
  have h: "incorrectCodeLed oneWrongCodeState" "noClear oneWrongCodeState blockedAttempts"
    "clearCondition clearPins alarmOnState"
    "noClear alarmOnState blockedAttempts" "0 \<le> numberOfIncorrectCodes alarmOnState"
    "\<not> clearCondition wrongCodePins oneWrongCodeState"
    "increments alarmOnState blockedAttempts = 1"
    by (simp_all add: blockedAttempts_def oneWrongCodeState_def alarmOnState_def
        clearCondition_def run_defs)
  have v: "numberOfIncorrectCodes oneWrongCodeState = 1" "alarmState oneWrongCodeState"
    "numberOfIncorrectCodes alarmOnState = 2"
    by (simp_all add: oneWrongCodeState_def alarmOnState_def)
  show ?thesis
    using h indicator_blocks_code_entry [of oneWrongCodeState wrongCodePins blockedAttempts]
      indicator_blocks_code_entry [of alarmOnState clearPins blockedAttempts]
    by (auto simp add: v)
qed

subsection \<open>The alarm latches\<close>

lemma latched_step:
  assumes "alarmState s \<or> gasDetector (sample e) \<or> overTempDetector (sample e)"
      and "\<not> validDeactivation (sample e) (alarmActivationUpdate (sample e) s)"
      and "loopIteration e s = Some (s1, tx)"
  shows "alarmState s1"
  using assms(1,2) loopIteration_fields(1) [OF assms(3)]
  by (auto simp add: alarmActivationUpdate_def alarmDeactivationUpdate_def validDeactivation_def
      Let_def split: if_splits)

lemma latched_run:
  "alarmState s \<Longrightarrow> noDeactivation s es \<Longrightarrow>
     \<exists>s' tx. mainLoop s es = Some (s', tx) \<and> alarmState s'"
proof (induction es arbitrary: s)
  case Nil
  then show ?case by simp
next
  case (Cons e es)
  obtain s1 tx where L: "loopIteration e s = Some (s1, tx)"
    using loopIteration_Some [of e s] by blast
  have nd: "\<not> validDeactivation (sample e) (alarmActivationUpdate (sample e) s)"
    "noDeactivation s1 es"
    using Cons.prems(2) L by simp_all
  have "alarmState s1" using latched_step [OF _ nd(1) L] Cons.prems(1) by simp
  then obtain s' tx' where "mainLoop s1 es = Some (s', tx')" "alarmState s'"
    using Cons.IH nd(2) by blast
  then show ?case using L by simp
qed

lemma noDeactivation_take: "noDeactivation s es \<Longrightarrow> noDeactivation s (take k es)"
proof (induction es arbitrary: s k)
  case Nil
  then show ?case by simp
next
  case (Cons e es)
  show ?case
  proof (cases k)
    case 0
    then show ?thesis by simp
  next
    case (Suc j)
    obtain s1 tx where L: "loopIteration e s = Some (s1, tx)"
      using loopIteration_Some [of e s] by blast
    then show ?thesis using Cons Suc by simp
  qed
qed

text \<open>
  C1. If either hazard sensor reads true at a sample, \<open>alarmState\<close> is true after
  \<open>alarmActivationUpdate\<close>, and it is true at the end of that iteration and of every
  later one, whatever the sensors read later, as long as no iteration from that sample
  on meets the valid deactivation sequence (enter pressed, incorrect-code indicator off,
  alarm active, a and b pressed, c and d released, lockout counter below 5).
\<close>

theorem alarm_latched_until_deactivation:
  assumes "gasDetector (sample e) \<or> overTempDetector (sample e)"
      and "noDeactivation s (e # es)"
  shows "alarmState (alarmActivationUpdate (sample e) s) \<and>
         (\<forall>k. \<exists>s' tx. mainLoop s (e # take k es) = Some (s', tx) \<and> alarmState s')"
proof
  show "alarmState (alarmActivationUpdate (sample e) s)"
    using assms(1) by (auto simp add: alarmActivationUpdate_def Let_def)
next
  show "\<forall>k. \<exists>s' tx. mainLoop s (e # take k es) = Some (s', tx) \<and> alarmState s'"
  proof
    fix k
    obtain s1 tx where L: "loopIteration e s = Some (s1, tx)"
      using loopIteration_Some [of e s] by blast
    have nd: "\<not> validDeactivation (sample e) (alarmActivationUpdate (sample e) s)"
      "noDeactivation s1 es"
      using assms(2) L by simp_all
    have "alarmState s1" using latched_step [OF _ nd(1) L] assms(1) by simp
    then obtain s' tx' where "mainLoop s1 (take k es) = Some (s', tx')" "alarmState s'"
      using latched_run [of s1 "take k es"] noDeactivation_take [OF nd(2)] by blast
    then show "\<exists>s' tx. mainLoop s (e # take k es) = Some (s', tx) \<and> alarmState s'"
      using L by simp
  qed
qed

theorem alarm_latched_until_deactivation_witness:
  "(gasDetector (sample (quiet gasPins)) \<or> overTempDetector (sample (quiet gasPins))) \<and>
   noDeactivation initialState (quiet gasPins # blockedAttempts) \<and>
   \<not> gasDetector (sample (quiet idlePins)) \<and> \<not> overTempDetector (sample (quiet idlePins)) \<and>
   alarmState (alarmActivationUpdate (sample (quiet gasPins)) initialState) \<and>
   (\<exists>s' tx. mainLoop initialState (quiet gasPins # blockedAttempts) = Some (s', tx) \<and>
       alarmState s')"
proof -
  have h1: "gasDetector (sample (quiet gasPins)) \<or> overTempDetector (sample (quiet gasPins))"
    by (simp add: quiet_def gasPins_def)
  have h2: "noDeactivation initialState (quiet gasPins # blockedAttempts)"
    by (simp add: blockedAttempts_def initialState_def validDeactivation_def run_defs)
  have "alarmState (alarmActivationUpdate (sample (quiet gasPins)) initialState) \<and>
     (\<exists>s' tx. mainLoop initialState (quiet gasPins # take 3 blockedAttempts) = Some (s', tx) \<and>
        alarmState s')"
    using alarm_latched_until_deactivation [OF h1 h2] by blast
  then show ?thesis
    using h1 h2 by (simp add: blockedAttempts_def quiet_def idlePins_def)
qed

subsection \<open>The periodic report\<close>

lemma sendStatusReport_eq:
  "sendStatusReport p s =
     Some (statusReportText (if alarmState s then ''ON'' else ''OFF'')
                            (if gasDetector p then ''Detected'' else ''Normal'')
                            (if overTempDetector p then ''High'' else ''Normal''))"
  by (simp add: sendStatusReport_def snprintf_def statusReportText_def uartWrite_def)

lemma loopIteration_output:
  "\<exists>s1 tx1 r tx3.
     loopIteration e s = Some (s1, tx1 @ (if 5 \<le> reportTimer s then r else []) @ tx3) \<and>
     uartTask (sample e) (received e)
       (alarmDeactivationUpdate (sample e) (alarmActivationUpdate (sample e) s)) = Some tx1 \<and>
     sendStatusReport (sample e)
       (alarmDeactivationUpdate (sample e) (alarmActivationUpdate (sample e) s)) = Some r \<and>
     r \<noteq> [] \<and>
     sendWarningIfNeeded (sample e) = Some tx3 \<and>
     reportTimer s1 = (if 5 \<le> reportTimer s then 0 else reportTimer s) + elapsed e"
proof -
  let ?s2 = "alarmDeactivationUpdate (sample e) (alarmActivationUpdate (sample e) s)"
  obtain tx1 where 1: "uartTask (sample e) (received e) ?s2 = Some tx1"
    using uartTask_total by blast
  obtain r where 2: "sendStatusReport (sample e) ?s2 = Some r" "r \<noteq> []"
    by (simp add: sendStatusReport_eq statusReportText_def)
  have 3: "reportDue ?s2 = (5 \<le> reportTimer s)"
    by (simp add: reportDue_def reportTimer_alarmUpdates)
  show ?thesis
    by (simp add: loopIteration_def 1 2 3 sendWarningIfNeeded_eq reportTimer_alarmUpdates)
qed

lemma spacedByFive_Cons:
  "spacedByFive ts \<Longrightarrow> (\<forall>u\<in>set ts. t + 5 \<le> u) \<Longrightarrow> spacedByFive (t # ts)"
  by (cases ts) simp_all

lemma spacedByFive_later: "spacedByFive (t # ts) \<Longrightarrow> \<forall>u\<in>set ts. t + 5 \<le> u"
proof (induction ts arbitrary: t)
  case Nil
  then show ?case by simp
next
  case (Cons u ts)
  then have "t + 5 \<le> u" "\<forall>v\<in>set ts. u + 5 \<le> v" by simp_all
  then show ?case by fastforce
qed

lemma spacedByFive_tail: "spacedByFive (t # ts) \<Longrightarrow> spacedByFive ts"
  by (cases ts) simp_all

lemma spacedByFive_window: "spacedByFive ts \<Longrightarrow> reportsInWindow w ts \<le> 1"
proof (induction ts)
  case Nil
  then show ?case by (simp add: reportsInWindow_def)
next
  case (Cons t ts)
  have tl: "reportsInWindow w ts \<le> 1"
    using Cons.IH spacedByFive_tail [OF Cons.prems] by simp
  show ?case
  proof (cases "w \<le> t \<and> t < w + 5")
    case True
    have "\<forall>u\<in>set ts. t + 5 \<le> u" using spacedByFive_later [OF Cons.prems] .
    then have "filter (\<lambda>u. w \<le> u \<and> u < w + 5) ts = []"
      using True by (auto simp add: filter_empty_conv)
    then show ?thesis using True by (simp add: reportsInWindow_def)
  next
    case False
    then show ?thesis using tl by (auto simp add: reportsInWindow_def)
  qed
qed

lemma reportTimes_spaced:
  "spacedByFive (reportTimes now s es) \<and>
   (\<forall>t\<in>set (reportTimes now s es). now + 5 \<le> t + reportTimer s)"
proof (induction es arbitrary: now s)
  case Nil
  show ?case by simp
next
  case (Cons e es)
  obtain s1 tx where L: "loopIteration e s = Some (s1, tx)"
    using loopIteration_Some [of e s] by blast
  have T: "reportTimer s1 = (if reportDue s then 0 else reportTimer s) + elapsed e"
    using loopIteration_fields(6) [OF L] .
  let ?rest = "reportTimes (now + elapsed e) s1 es"
  have IH: "spacedByFive ?rest" "\<forall>t\<in>set ?rest. now + elapsed e + 5 \<le> t + reportTimer s1"
    using Cons.IH [of "now + elapsed e" s1] by simp_all
  show ?case
  proof (cases "reportDue s")
    case True
    then have later: "\<forall>t\<in>set ?rest. now + 5 \<le> t" using IH(2) T by simp
    have "spacedByFive (now # ?rest)" using spacedByFive_Cons [OF IH(1) later] .
    moreover have "\<forall>t\<in>set (now # ?rest). now + 5 \<le> t + reportTimer s"
      using later True by (auto simp add: reportDue_def)
    ultimately show ?thesis using L True by simp
  next
    case False
    then have "\<forall>t\<in>set ?rest. now + 5 \<le> t + reportTimer s" using IH(2) T by simp
    then show ?thesis using L False IH(1) by simp
  qed
qed

lemma reportTimes_received:
  "reportTimes now s (map (\<lambda>e. e\<lparr>received := rx e\<rparr>) es) = reportTimes now s es"
proof (induction es arbitrary: now s)
  case Nil
  show ?case by simp
next
  case (Cons e es)
  obtain tx where L: "loopIteration e s =
     Some ((alarmDeactivationUpdate (sample e) (alarmActivationUpdate (sample e) s))
             \<lparr>reportTimer := (if reportDue s then 0 else reportTimer s) + elapsed e\<rparr>, tx)"
    using loopIteration_Some [of e s] by blast
  obtain tx' where L': "loopIteration (e\<lparr>received := rx e\<rparr>) s =
     Some ((alarmDeactivationUpdate (sample e) (alarmActivationUpdate (sample e) s))
             \<lparr>reportTimer := (if reportDue s then 0 else reportTimer s) + elapsed e\<rparr>, tx')"
    using loopIteration_Some [of "e\<lparr>received := rx e\<rparr>" s] by auto
  show ?case using L L' Cons.IH by simp
qed

lemma idle_step:
  "\<exists>tx. loopIteration (quiet idlePins)
          \<lparr>alarmLed = False, incorrectCodeLed = False, systemBlockedLed = False,
           alarmState = False, numberOfIncorrectCodes = 0, reportTimer = t\<rparr> =
     Some (\<lparr>alarmLed = False, incorrectCodeLed = False, systemBlockedLed = False,
            alarmState = False, numberOfIncorrectCodes = 0,
            reportTimer = (if 5 \<le> t then 0 else t) + 11 / 100\<rparr>, tx)"
  using loopIteration_Some [of "quiet idlePins"
      "\<lparr>alarmLed = False, incorrectCodeLed = False, systemBlockedLed = False,
        alarmState = False, numberOfIncorrectCodes = 0, reportTimer = t\<rparr>"]
  by (auto simp add: quiet_def idlePins_def alarmActivationUpdate_def
      alarmDeactivationUpdate_def reportDue_def)

lemma idle_reportTimes:
  "t < 5 \<Longrightarrow>
     reportTimes now
       \<lparr>alarmLed = False, incorrectCodeLed = False, systemBlockedLed = False,
        alarmState = False, numberOfIncorrectCodes = 0, reportTimer = t\<rparr>
       (quiet idlePins # es) =
     reportTimes (now + 11 / 100)
       \<lparr>alarmLed = False, incorrectCodeLed = False, systemBlockedLed = False,
        alarmState = False, numberOfIncorrectCodes = 0, reportTimer = t + 11 / 100\<rparr> es"
  "5 \<le> t \<Longrightarrow>
     reportTimes now
       \<lparr>alarmLed = False, incorrectCodeLed = False, systemBlockedLed = False,
        alarmState = False, numberOfIncorrectCodes = 0, reportTimer = t\<rparr>
       (quiet idlePins # es) =
     now # reportTimes (now + 11 / 100)
       \<lparr>alarmLed = False, incorrectCodeLed = False, systemBlockedLed = False,
        alarmState = False, numberOfIncorrectCodes = 0, reportTimer = 11 / 100\<rparr> es"
  using idle_step [of t] by (auto simp add: reportDue_def quiet_def)

lemma idle_run_reportTimes:
  "reportTimes 0 initialState idleRun = [253 / 50, 253 / 25]"
  by (simp add: idleRun_def initialState_def eval_nat_numeral idle_reportTimes del: reportTimes.simps(2))

text \<open>
  C8 as stated fails: with iterations of 110 ms the reports of a run from the initial
  state come at 5.06 s and 10.12 s, so that no report falls into the 5.0-second window
  that starts at 5.1 s.
\<close>

theorem no_report_in_window_counterexample:
  "reportsInWindow (51 / 10) (reportTimes 0 initialState idleRun) = 0"
  by (simp add: idle_run_reportTimes reportsInWindow_def)

text \<open>
  C8, amended. On every loop iteration the status report is sent if and only if the
  timer shows at least 5.0 (then the bytes of the iteration are those of \<open>uartTask\<close>,
  the report, and the warnings, in this order; otherwise the report is left out), and the
  timer starts again from zero right after a report. Hence successive reports are at
  least 5.0 time units apart and at most one report falls into any window of 5.0 time
  units, and the bytes received on the serial port have no influence on the times of
  the reports.
\<close>

theorem report_polled_at_five:
  "(\<exists>s1 tx1 r tx3.
     loopIteration e s = Some (s1, tx1 @ (if 5 \<le> reportTimer s then r else []) @ tx3) \<and>
     uartTask (sample e) (received e)
       (alarmDeactivationUpdate (sample e) (alarmActivationUpdate (sample e) s)) = Some tx1 \<and>
     sendStatusReport (sample e)
       (alarmDeactivationUpdate (sample e) (alarmActivationUpdate (sample e) s)) = Some r \<and>
     r \<noteq> [] \<and>
     sendWarningIfNeeded (sample e) = Some tx3 \<and>
     reportTimer s1 = (if 5 \<le> reportTimer s then 0 else reportTimer s) + elapsed e) \<and>
   spacedByFive (reportTimes now s es) \<and>
   reportsInWindow w (reportTimes now s es) \<le> 1 \<and>
   reportTimes now s (map (\<lambda>e. e\<lparr>received := rx e\<rparr>) es) = reportTimes now s es"
  using loopIteration_output [of e s] reportTimes_spaced [of now s es]
    spacedByFive_window [of "reportTimes now s es" w] reportTimes_received [of now s rx es]
  by blast

theorem report_polled_at_five_witness:
  "spacedByFive (reportTimes 0 initialState idleRun) \<and>
   reportsInWindow (253 / 50) (reportTimes 0 initialState idleRun) \<le> 1 \<and>
   reportTimes 0 initialState (map (\<lambda>e. e\<lparr>received := Some (CHR ''2'')\<rparr>) idleRun) =
     [253 / 50, 253 / 25]"
  using report_polled_at_five
          [of "quiet idlePins" initialState 0 idleRun "253 / 50" "\<lambda>e. Some (CHR ''2'')"]
        idle_run_reportTimes
  by simp

subsection \<open>The bytes sent\<close>

text \<open>
  C5. A received \<open>'2'\<close> with the gas sensor true sends exactly \<open>Gas detected!\<close>,
  carriage return, line feed. With the gas sensor false the length passed to
  \<open>uartUsb.write\<close> is 18 for a text of 17 bytes: the bytes sent are \<open>No gas detected\<close>,
  carriage return, line feed and the zero byte that ends the literal.
\<close>

theorem gas_query_reply:
  "uartTask (p\<lparr>gasDetector := True\<rparr>) (Some (CHR ''2'')) s =
     Some (''Gas detected!'' @ [CR, LF]) \<and>
   uartTask (p\<lparr>gasDetector := False\<rparr>) (Some (CHR ''2'')) s =
     Some (''No gas detected'' @ [CR, LF, NUL]) \<and>
   uartTask idlePins (Some (CHR ''2'')) initialState \<noteq> Some (''No gas detected'' @ [CR, LF])"
  by (simp add: uartTask_def serial_defs idlePins_def)

lemma uartTask_other:
  "rx \<noteq> CHR ''1'' \<Longrightarrow> rx \<noteq> CHR ''2'' \<Longrightarrow> rx \<noteq> CHR ''3'' \<Longrightarrow>
     uartTask p (Some rx) s = availableCommands"
  by (simp add: uartTask_def)

text \<open>
  C6. A received byte outside \<open>'1'\<close>, \<open>'2'\<close>, \<open>'3'\<close> (here \<open>'x'\<close>) sends the help text
  with two of its four lengths off by one: the second line is cut before its line feed
  (33 for 34 bytes) and the third is followed by the zero byte that ends the literal
  (32 for 31 bytes). The bytes sent are not the help text.
\<close>

theorem help_text_bytes:
  "uartTask idlePins (Some (CHR ''x'')) initialState =
     Some (''Available commands:'' @ [CR, LF] @
           ''Press '1' to get the alarm state'' @ [CR] @
           ''Press '2' to check gas status'' @ [CR, LF, NUL] @
           ''Press '3' to check temperature status'' @ [CR, LF, CR, LF]) \<and>
   uartTask idlePins (Some (CHR ''x'')) initialState \<noteq> Some helpText"
  by (simp add: uartTask_def availableCommands_eq helpText_def CR_def LF_def NUL_def)

text \<open>
  C9. With both sensors false \<open>sendWarningIfNeeded\<close> sends nothing, and each sensor
  that reads true adds one write of its warning. The gas warning is written with length
  29 for a text of 30 bytes, which cuts its line feed: with gas alone the bytes sent
  hold no complete line, and with both sensors true they hold one complete line, not
  two. The temperature warning is a complete line.
\<close>

theorem warning_bytes:
  "sendWarningIfNeeded idlePins = Some [] \<and>
   sendWarningIfNeeded gasPins = Some (''[WARNING] Gas levels unsafe!'' @ [CR]) \<and>
   map_option crlfLines (sendWarningIfNeeded gasPins) = Some 0 \<and>
   sendWarningIfNeeded (idlePins\<lparr>overTempDetector := True\<rparr>) =
     Some (''[WARNING] Temperature too high!'' @ [CR, LF]) \<and>
   map_option crlfLines (sendWarningIfNeeded (idlePins\<lparr>overTempDetector := True\<rparr>)) = Some 1 \<and>
   map_option crlfLines (sendWarningIfNeeded (gasPins\<lparr>overTempDetector := True\<rparr>)) = Some 1"
  by (simp add: sendWarningIfNeeded_eq gasPins_def idlePins_def CR_def LF_def)

end
